theory Spec2Isabelle
  imports Complex_Main "HOL-Library.Log_Nat"
begin

section \<open>haproxyctl: the data model of \<^verbatim>\<open>cmd/haproxyctl/models.go\<close>\<close>

text \<open>
  The file declares the client configuration (\<^verbatim>\<open>HAProxyConfig\<close>, built by
  \<^verbatim>\<open>NewHAProxyConfig\<close> from functional options), the statistics record, the
  \<^verbatim>\<open>Duration\<close> wrapper with its CSV methods, and the two vocabularies
  \<^verbatim>\<open>EntryType\<close> and \<^verbatim>\<open>Action\<close>. This theory embeds the configuration and its
  construction with the standard library functions it calls (\<^verbatim>\<open>strings.TrimRight\<close>,
  \<^verbatim>\<open>url.Parse\<close>), \<^verbatim>\<open>Duration\<close> with the standard library functions its methods call
  (\<^verbatim>\<open>time.ParseDuration\<close>, \<^verbatim>\<open>time.Duration.String\<close>, \<^verbatim>\<open>fmt.Sprintf\<close>), and the two
  vocabularies. The statistics record is a list of fields and tags with no code of its
  own; of its fields, the theory has the types \<^verbatim>\<open>Duration\<close> and \<^verbatim>\<open>EntryType\<close>.

  Go strings are byte sequences; they are modelled as \<^typ>\<open>string\<close> (a list of 8-bit
  characters). A Go \<^verbatim>\<open>error\<close> result is an \<^verbatim>\<open>error option\<close> (\<^verbatim>\<open>nil\<close> is
  \<^term>\<open>None\<close>); a pointer result that is \<^verbatim>\<open>nil\<close> exactly when the error is set is a sum.
\<close>

subsection \<open>Errors\<close>

text \<open>
  The error values that the modelled code creates or passes on. The three duration errors
  are those of \<^verbatim>\<open>time.ParseDuration\<close>, with the strings they quote as arguments.
  \<^verbatim>\<open>url.Error\<close> is the struct of an operation, a URL and the error it wraps;
  \<^verbatim>\<open>url.EscapeError\<close> and \<^verbatim>\<open>url.InvalidHostError\<close> are strings, and \<^verbatim>\<open>ErrInvalidPort\<close>
  is the error that \<^verbatim>\<open>fmt.Errorf("invalid port %q after host", colonPort)\<close> makes, with
  \<^verbatim>\<open>colonPort\<close> as its argument. \<^verbatim>\<open>ErrOther\<close> is an error made by \<^verbatim>\<open>errors.New\<close> from a
  text, here or elsewhere (an option's).
\<close>

datatype error =
    ErrInvalidDuration string
  | ErrMissingUnit string
  | ErrUnknownUnit string string
  | ErrLeadingInt
  | ErrUseLastResponse
  | ErrOther string
  | url_Error string string error
  | url_EscapeError string
  | url_InvalidHostError string
  | ErrInvalidPort string

subsection \<open>Fixed-width integers\<close>

text \<open>
  \<^verbatim>\<open>uint64\<close> values are naturals below \<open>2 ^ 64\<close>, and every \<^verbatim>\<open>uint64\<close> operation of the
  code is followed by its reduction; \<^verbatim>\<open>int64\<close> values are integers, and a conversion
  into \<^verbatim>\<open>int64\<close> is two's complement.
\<close>

definition u64 :: "nat \<Rightarrow> nat" where
  "u64 n = n mod 2 ^ 64"

definition int64 :: "int \<Rightarrow> int" where
  "int64 i = (i + 2 ^ 63) mod 2 ^ 64 - 2 ^ 63"

subsection \<open>IEEE 754 binary64, as far as \<^verbatim>\<open>time.ParseDuration\<close> uses it\<close>

text \<open>
  \<^verbatim>\<open>ParseDuration\<close> computes the contribution of a fraction in \<^verbatim>\<open>float64\<close>. Only
  non-negative values occur there, and the only infinity is a scale that overflowed, so a
  \<^verbatim>\<open>float64\<close> is a non-negative rational or \<open>+Inf\<close>. Every operation is the exact one
  followed by rounding to nearest, ties to even, with 53 bits of precision, exponents
  from \<open>-1074\<close> (subnormals) and overflow to \<open>+Inf\<close> at \<open>2 ^ 1024\<close>.
\<close>

datatype float64 = Float rat | PosInf

definition pow2 :: "int \<Rightarrow> rat" where
  "pow2 e = (if 0 \<le> e then 2 ^ nat e else 1 / 2 ^ nat (- e))"

definition ilog2 :: "rat \<Rightarrow> int" where
  \<comment> \<open>\<open>\<lfloor>log\<^sub>2 q\<rfloor>\<close> for \<open>0 < q\<close>, from the bit lengths of numerator and denominator\<close>
  "ilog2 q =
     (let (n, d) = quotient_of q;
          k = bitlen n - bitlen d
      in if pow2 k \<le> q then k else k - 1)"

definition round_half_even :: "rat \<Rightarrow> int" where
  "round_half_even r =
     (let fl = \<lfloor>r\<rfloor>; frac = r - of_int fl
      in if frac < 1 / 2 then fl
         else if 1 / 2 < frac then fl + 1
         else if even fl then fl else fl + 1)"

definition f64_round :: "rat \<Rightarrow> float64" where
  "f64_round q =
     (if q \<le> 0 then Float 0
      else let e = max (ilog2 q - 52) (- 1074);
               r = of_int (round_half_even (q / pow2 e)) * pow2 e
           in if pow2 1024 \<le> r then PosInf else Float r)"

text \<open>
  The products of \<^verbatim>\<open>ParseDuration\<close> are \<^verbatim>\<open>scale *= 10\<close> and a finite
  \<^verbatim>\<open>float64(f)\<close> times a finite quotient: an infinite factor is a scale that has
  overflowed, and it is never multiplied by zero. The quotient is \<^verbatim>\<open>float64(unit) / scale\<close>
  with a finite \<^verbatim>\<open>unit\<close> and a \<^verbatim>\<open>scale\<close> of at least 1, so the divisor is never zero
  and the dividend never infinite.
\<close>

fun f64_mul :: "float64 \<Rightarrow> float64 \<Rightarrow> float64" where
  "f64_mul (Float a) (Float b) = f64_round (a * b)"
| "f64_mul _ _ = PosInf"

fun f64_div :: "float64 \<Rightarrow> float64 \<Rightarrow> float64" where
  "f64_div (Float a) (Float b) = f64_round (a / b)"
| "f64_div (Float a) PosInf = Float 0"
| "f64_div PosInf _ = PosInf"

definition float64_of_uint64 :: "nat \<Rightarrow> float64" where
  "float64_of_uint64 n = f64_round (of_nat n)"

fun uint64_of_float64 :: "float64 \<Rightarrow> nat" where
  \<comment> \<open>truncation; the operand in \<^verbatim>\<open>ParseDuration\<close> is finite and below \<open>2 ^ 64\<close>\<close>
  "uint64_of_float64 (Float r) = u64 (nat \<lfloor>r\<rfloor>)"
| "uint64_of_float64 PosInf = 2 ^ 63"

subsection \<open>\<^verbatim>\<open>time.ParseDuration\<close>\<close>

text \<open>
  \<^verbatim>\<open>Duration.UnmarshalCSV\<close> hands the cell, with \<^verbatim>\<open>s\<close> appended, to the standard
  library's \<^verbatim>\<open>time.ParseDuration\<close>, which accepts
  \<^verbatim>\<open>[-+]?([0-9]*(\.[0-9]*)?[a-z]+)+\<close>. The function is modelled statement by statement:
  \<^verbatim>\<open>leadingInt\<close>, \<^verbatim>\<open>leadingFraction\<close>, the unit table, and the loop over the terms of
  the duration with its overflow checks.
\<close>

definition isDigit :: "char \<Rightarrow> bool" where
  \<comment> \<open>\<^verbatim>\<open>'0' <= c && c <= '9'\<close>\<close>
  "isDigit c \<longleftrightarrow> 48 \<le> (of_char c :: nat) \<and> (of_char c :: nat) \<le> 57"

definition digitVal :: "char \<Rightarrow> nat" where
  \<comment> \<open>\<^verbatim>\<open>uint64(c) - '0'\<close>, for a digit\<close>
  "digitVal c = of_char c - 48"

fun leadingInt_from :: "nat \<Rightarrow> string \<Rightarrow> nat \<times> string \<times> error option" where
  "leadingInt_from x [] = (x, [], None)"
| "leadingInt_from x (c # s) =
     (if \<not> isDigit c then (x, c # s, None)
      else if x > 2 ^ 63 div 10 then (0, [], Some ErrLeadingInt)
      else let x' = u64 (x * 10 + digitVal c)
           in if x' > 2 ^ 63 then (0, [], Some ErrLeadingInt)
              else leadingInt_from x' s)"

definition leadingInt :: "string \<Rightarrow> nat \<times> string \<times> error option" where
  "leadingInt s = leadingInt_from 0 s"

fun leadingFraction_from ::
  "nat \<Rightarrow> float64 \<Rightarrow> bool \<Rightarrow> string \<Rightarrow> nat \<times> float64 \<times> string" where
  "leadingFraction_from x scale overflow [] = (x, scale, [])"
| "leadingFraction_from x scale overflow (c # s) =
     (if \<not> isDigit c then (x, scale, c # s)
      else if overflow then leadingFraction_from x scale overflow s
      else if x > (2 ^ 63 - 1) div 10 then leadingFraction_from x scale True s
      else let y = u64 (x * 10 + digitVal c)
           in if y > 2 ^ 63 then leadingFraction_from x scale True s
              else leadingFraction_from y (f64_mul scale (Float 10)) overflow s)"

definition leadingFraction :: "string \<Rightarrow> nat \<times> float64 \<times> string" where
  "leadingFraction s = leadingFraction_from 0 (Float 1) False s"

definition unitMap :: "string \<rightharpoonup> nat" where
  \<comment> \<open>the two spellings of the micro sign are U+00B5 and U+03BC in UTF-8\<close>
  "unitMap = map_of
     [(''ns'', 1),
      (''us'', 1000),
      ([char_of (0xC2 :: nat), char_of (0xB5 :: nat), CHR ''s''], 1000),
      ([char_of (0xCE :: nat), char_of (0xBC :: nat), CHR ''s''], 1000),
      (''ms'', 1000000),
      (''s'', 1000000000),
      (''m'', 60000000000),
      (''h'', 3600000000000)]"

definition startsNumber :: "char \<Rightarrow> bool" where
  \<comment> \<open>\<^verbatim>\<open>c == '.' || '0' <= c && c <= '9'\<close>\<close>
  "startsNumber c \<longleftrightarrow> c = CHR ''.'' \<or> isDigit c"

text \<open>
  The step \<^verbatim>\<open>Consume (\.[0-9]*)?\<close>: the fraction \<^verbatim>\<open>f\<close>, its \<^verbatim>\<open>scale\<close>, the rest of
  the input and \<^verbatim>\<open>post\<close>, whether a digit followed the period.
\<close>

definition consumeFraction :: "string \<Rightarrow> nat \<times> float64 \<times> string \<times> bool" where
  "consumeFraction s1 =
     (case s1 of
        c1 # t1 \<Rightarrow>
          if c1 = CHR ''.''
          then (case leadingFraction t1 of
                  (f, scale, r) \<Rightarrow> (f, scale, r, length t1 \<noteq> length r))
          else (0, Float 1, s1, False)
      | [] \<Rightarrow> (0, Float 1, s1, False))"

text \<open>
  The step \<^verbatim>\<open>Consume unit\<close> and the overflow checks that follow it: from the integer
  part \<^verbatim>\<open>v\<close>, the fraction and the input at the unit, the value of the term in
  nanoseconds and the rest of the input.
\<close>

definition consumeUnit ::
  "string \<Rightarrow> nat \<Rightarrow> nat \<Rightarrow> float64 \<Rightarrow> string \<Rightarrow> error + nat \<times> string" where
  "consumeUnit orig v f scale s2 =
     (let i = length (takeWhile (\<lambda>c. \<not> startsNumber c) s2)
      in if i = 0 then Inl (ErrMissingUnit orig)
         else
           let u = take i s2; s3 = drop i s2
           in (case unitMap u of
                 None \<Rightarrow> Inl (ErrUnknownUnit u orig)
               | Some unit \<Rightarrow>
                   if v > 2 ^ 63 div unit then Inl (ErrInvalidDuration orig)
                   else
                     let v1 = u64 (v * unit)
                     in if f > 0
                        then
                          let v2 = u64 (v1 + uint64_of_float64
                                (f64_mul (float64_of_uint64 f)
                                   (f64_div (float64_of_uint64 unit) scale)))
                          in if v2 > 2 ^ 63 then Inl (ErrInvalidDuration orig)
                             else Inr (v2, s3)
                        else Inr (v1, s3)))"

text \<open>
  One pass of the loop body, from the check of the first character to the overflow check
  of the term's value.
\<close>

definition ParseDuration_term :: "string \<Rightarrow> string \<Rightarrow> error + nat \<times> string" where
  "ParseDuration_term orig s =
     (case s of
        [] \<Rightarrow> Inl (ErrInvalidDuration orig)
      | c # _ \<Rightarrow>
          if \<not> startsNumber c then Inl (ErrInvalidDuration orig)
          else
            (case leadingInt s of
               (_, _, Some _) \<Rightarrow> Inl (ErrInvalidDuration orig)
             | (v, s1, None) \<Rightarrow>
                 let pre = (length s \<noteq> length s1)
                 in (case consumeFraction s1 of
                       (f, scale, s2, post) \<Rightarrow>
                         if \<not> pre \<and> \<not> post then Inl (ErrInvalidDuration orig)
                         else consumeUnit orig v f scale s2)))"

lemma leadingInt_from_length:
  "leadingInt_from x s = (v, r, e) \<Longrightarrow> length r \<le> length s"
proof (induction s arbitrary: x)
  case Nil
  then show ?case by simp
next
  case (Cons c s)
  then show ?case
    by (fastforce simp: Let_def split: if_splits)
qed

lemma leadingFraction_from_length:
  "leadingFraction_from x sc ov s = (f, sc', r) \<Longrightarrow> length r \<le> length s"
proof (induction s arbitrary: x sc ov)
  case Nil
  then show ?case by simp
next
  case (Cons c s)
  then show ?case
    by (fastforce simp: Let_def split: if_splits)
qed

lemma consumeFraction_length:
  assumes "consumeFraction s1 = (f, scale, s2, post)"
  shows "length s2 \<le> length s1"
proof (cases s1)
  case Nil
  with assms show ?thesis by (simp add: consumeFraction_def)
next
  case (Cons c1 t1)
  show ?thesis
  proof (cases "c1 = CHR ''.''")
    case False
    with assms Cons show ?thesis by (simp add: consumeFraction_def)
  next
    case True
    obtain f' sc' r' where lf: "leadingFraction t1 = (f', sc', r')"
      by (cases "leadingFraction t1") auto
    then have "length r' \<le> length t1"
      using leadingFraction_from_length by (auto simp: leadingFraction_def)
    with assms Cons True lf show ?thesis by (simp add: consumeFraction_def)
  qed
qed

lemma consumeUnit_shorter:
  assumes "consumeUnit orig v f scale s2 = Inr (w, rest)"
  shows "length rest < length s2"
proof -
  define i where "i = length (takeWhile (\<lambda>c. \<not> startsNumber c) s2)"
  from assms have "0 < i \<and> rest = drop i s2"
    unfolding consumeUnit_def i_def [symmetric]
    by (simp add: Let_def split: if_splits option.splits)
  moreover have "i \<le> length s2"
    by (simp add: i_def length_takeWhile_le)
  ultimately show ?thesis by auto
qed

lemma ParseDuration_term_shorter:
  assumes "ParseDuration_term orig s = Inr (v, rest)"
  shows "length rest < length s"
proof (cases s)
  case Nil
  with assms show ?thesis by (simp add: ParseDuration_term_def)
next
  case (Cons c s')
  obtain v0 s1 e where li: "leadingInt (c # s') = (v0, s1, e)"
    by (cases "leadingInt (c # s')") auto
  have l1: "length s1 \<le> length (c # s')"
    using li leadingInt_from_length unfolding leadingInt_def by blast
  obtain f scale s2 post where cf: "consumeFraction s1 = (f, scale, s2, post)"
    by (cases "consumeFraction s1") auto
  have l2: "length s2 \<le> length s1"
    using cf by (rule consumeFraction_length)
  from assms have "consumeUnit orig v0 f scale s2 = Inr (v, rest)"
    by (simp add: ParseDuration_term_def Cons li cf Let_def
        split: if_splits option.splits)
  then have "length rest < length s2"
    by (rule consumeUnit_shorter)
  with l1 l2 Cons show ?thesis by simp
qed

text \<open>The loop \<^verbatim>\<open>for s != ""\<close>, with the accumulated \<^verbatim>\<open>d\<close> and its overflow check.\<close>

function ParseDuration_loop :: "string \<Rightarrow> nat \<Rightarrow> string \<Rightarrow> error + nat" where
  "ParseDuration_loop orig d s =
     (if s = [] then Inr d
      else
        (case ParseDuration_term orig s of
           Inl e \<Rightarrow> Inl e
         | Inr (v, rest) \<Rightarrow>
             let d' = u64 (d + v)
             in if d' > 2 ^ 63 then Inl (ErrInvalidDuration orig)
                else ParseDuration_loop orig d' rest))"
  by pat_completeness auto
termination
  by (relation "measure (\<lambda>(orig, d, s). length s)")
    (auto dest: ParseDuration_term_shorter)

declare ParseDuration_loop.simps [simp del]

text \<open>
  \<^verbatim>\<open>ParseDuration\<close> returns the pair \<^verbatim>\<open>(Duration, error)\<close>; the duration is \<open>0\<close>
  whenever the error is set.
\<close>

definition ParseDuration :: "string \<Rightarrow> int \<times> error option" where
  "ParseDuration s0 =
     (let orig = s0;
          (neg, s) =
             (case s0 of
                c # t \<Rightarrow> if c = CHR ''-'' \<or> c = CHR ''+'' then (c = CHR ''-'', t) else (False, s0)
              | [] \<Rightarrow> (False, s0))
      in if s = ''0'' then (0, None)
         else if s = [] then (0, Some (ErrInvalidDuration orig))
         else
           (case ParseDuration_loop orig 0 s of
              Inl e \<Rightarrow> (0, Some e)
            | Inr d \<Rightarrow>
                if neg then (int64 (- int64 (int d)), None)
                else if d > 2 ^ 63 - 1 then (0, Some (ErrInvalidDuration orig))
                else (int64 (int d), None)))"

subsection \<open>\<^verbatim>\<open>time.Duration.String\<close> and \<^verbatim>\<open>%d\<close>\<close>

text \<open>
  The formatting helpers of package \<^verbatim>\<open>time\<close> write into the tail of a buffer, from right
  to left; the model keeps the part of the buffer that is written, and a write puts a
  character in front of it.
\<close>

function fmtInt_loop :: "string \<Rightarrow> nat \<Rightarrow> string" where
  "fmtInt_loop buf v =
     (if v > 0 then fmtInt_loop (char_of (v mod 10 + 48) # buf) (v div 10) else buf)"
  by pat_completeness auto
termination
  by (relation "measure (\<lambda>(buf, v). v)") auto

declare fmtInt_loop.simps [simp del]

definition fmtInt :: "string \<Rightarrow> nat \<Rightarrow> string" where
  "fmtInt buf v = (if v = 0 then CHR ''0'' # buf else fmtInt_loop buf v)"

fun fmtFrac_loop :: "string \<Rightarrow> nat \<Rightarrow> bool \<Rightarrow> nat \<Rightarrow> string \<times> nat \<times> bool" where
  "fmtFrac_loop buf v print 0 = (buf, v, print)"
| "fmtFrac_loop buf v print (Suc n) =
     (let digit = v mod 10;
          print' = (print \<or> digit \<noteq> 0);
          buf' = (if print' then char_of (digit + 48) # buf else buf)
      in fmtFrac_loop buf' (v div 10) print' n)"

definition fmtFrac :: "string \<Rightarrow> nat \<Rightarrow> nat \<Rightarrow> string \<times> nat" where
  "fmtFrac buf v prec =
     (case fmtFrac_loop buf v False prec of
        (buf', v', print) \<Rightarrow> (if print then CHR ''.'' # buf' else buf', v'))"

definition Duration_String :: "int \<Rightarrow> string" where
  "Duration_String d =
     (let u0 = nat (d mod 2 ^ 64);
          neg = (d < 0);
          u = (if neg then u64 (2 ^ 64 - u0) else u0)
      in if u < 1000000000
         then
           if u = 0 then ''0s''
           else
             let (prec, unit) =
                   (if u < 1000 then (0, ''ns'')
                    else if u < 1000000
                    then (3, [char_of (0xC2 :: nat), char_of (0xB5 :: nat), CHR ''s''])
                    else (6, ''ms''));
                 (buf, u1) = fmtFrac unit u prec;
                 buf = fmtInt buf u1
             in if neg then CHR ''-'' # buf else buf
         else
           let (buf, u1) = fmtFrac ''s'' u 9;
               buf = fmtInt buf (u1 mod 60);
               u2 = u1 div 60;
               buf =
                 (if u2 > 0
                  then
                    let buf = fmtInt (CHR ''m'' # buf) (u2 mod 60);
                        u3 = u2 div 60
                    in if u3 > 0 then fmtInt (CHR ''h'' # buf) u3 else buf
                  else buf)
           in if neg then CHR ''-'' # buf else buf)"

definition Sprintf_d :: "int \<Rightarrow> string" where
  \<comment> \<open>\<^verbatim>\<open>fmt.Sprintf("%d", i)\<close>: the decimal digits, after a minus sign for a negative\<close>
  "Sprintf_d i = (if i < 0 then CHR ''-'' # fmtInt [] (nat (- i)) else fmtInt [] (nat i))"

subsection \<open>\<^verbatim>\<open>Duration\<close> and its CSV methods\<close>

text \<open>
  \<^verbatim>\<open>type Duration struct { time.Duration }\<close>: the embedded \<^verbatim>\<open>time.Duration\<close> is an
  \<^verbatim>\<open>int64\<close> count of nanoseconds, read by the promoted method \<^verbatim>\<open>Nanoseconds\<close>.
  The methods have a pointer receiver: \<^verbatim>\<open>UnmarshalCSV\<close> returns the receiver as it
  leaves it, next to its error.
\<close>

datatype Duration = Duration (Nanoseconds: int)

definition UnmarshalCSV :: "Duration \<Rightarrow> string \<Rightarrow> Duration \<times> error option" where
  "UnmarshalCSV date csv =
     (if csv = [] then (date, None)
      else
        let timeString = csv @ ''s'';
            (d, err) = ParseDuration timeString
        in (Duration d, err))"

definition MarshalCSV :: "Duration \<Rightarrow> string \<times> error option" where
  "MarshalCSV date = (Sprintf_d (Nanoseconds date), None)"

definition String :: "Duration \<Rightarrow> string" where
  "String date = Duration_String (Nanoseconds date)"

subsection \<open>Decimal strings\<close>

text \<open>
  The value of a string of decimal digits, and the decimal string of a number: its digits,
  most significant first, with no leading zero (\<^verbatim>\<open>0\<close> itself apart).
\<close>

definition decimalValue :: "string \<Rightarrow> nat" where
  "decimalValue s = foldl (\<lambda>a c. a * 10 + digitVal c) 0 s"

definition isDecimalOf :: "string \<Rightarrow> nat \<Rightarrow> bool" where
  "isDecimalOf out n \<longleftrightarrow>
     out \<noteq> [] \<and> list_all isDigit out \<and> decimalValue out = n \<and>
     (out = ''0'' \<or> hd out \<noteq> CHR ''0'')"


subsection \<open>Duration strings\<close>











subsection \<open>\<^verbatim>\<open>EntryType\<close>\<close>

text \<open>
  \<^verbatim>\<open>type EntryType int\<close>, with four constants numbered by \<^verbatim>\<open>iota\<close>. The type is Go's
  \<^verbatim>\<open>int\<close> under a new name: every integer converts to it, \<^verbatim>\<open>EntryType(n)\<close>.
\<close>

datatype EntryType = EntryType (ordinal: int)

definition Frontend :: EntryType where "Frontend = EntryType 0"
definition Backend :: EntryType where "Backend = EntryType 1"
definition Server :: EntryType where "Server = EntryType 2"
definition Socket :: EntryType where "Socket = EntryType 3"

text \<open>
  The file has no code that decodes the \<^verbatim>\<open>type\<close> column: the statistics record is
  filled from its \<^verbatim>\<open>csv\<close> tags by a decoder outside this file, and \<^verbatim>\<open>EntryType\<close>,
  unlike \<^verbatim>\<open>Duration\<close>, declares no \<^verbatim>\<open>UnmarshalCSV\<close> method.
\<close>

subsection \<open>\<^verbatim>\<open>Action\<close>\<close>

text \<open>\<^verbatim>\<open>type Action string\<close> and its thirteen constants, in the order of the source.\<close>

datatype Action = Action (token: string)

definition ActionSetStateToReady :: Action where "ActionSetStateToReady = Action ''ready''"
definition ActionSetStateToDrain :: Action where "ActionSetStateToDrain = Action ''drain''"
definition ActionSetStateToMaint :: Action where "ActionSetStateToMaint = Action ''maint''"
definition ActionHealthDisableChecks :: Action where "ActionHealthDisableChecks = Action ''dhlth''"
definition ActionHealthEnableChecks :: Action where "ActionHealthEnableChecks = Action ''ehlth''"
definition ActionHealthForceUp :: Action where "ActionHealthForceUp = Action ''hrunn''"
definition ActionHealthForceNoLB :: Action where "ActionHealthForceNoLB = Action ''hnolb''"
definition ActionHealthForceDown :: Action where "ActionHealthForceDown = Action ''hdown''"
definition ActionAgentDisablechecks :: Action where "ActionAgentDisablechecks = Action ''dagent''"
definition ActionAgentEnablechecks :: Action where "ActionAgentEnablechecks = Action ''eagent''"
definition ActionAgentForceUp :: Action where "ActionAgentForceUp = Action ''arunn''"
definition ActionAgentForceDown :: Action where "ActionAgentForceDown = Action ''adown''"
definition ActionKillSessions :: Action where "ActionKillSessions = Action ''shutdown''"

definition Actions :: "Action list" where
  "Actions =
     [ActionSetStateToReady, ActionSetStateToDrain, ActionSetStateToMaint,
      ActionHealthDisableChecks, ActionHealthEnableChecks, ActionHealthForceUp,
      ActionHealthForceNoLB, ActionHealthForceDown,
      ActionAgentDisablechecks, ActionAgentEnablechecks, ActionAgentForceUp,
      ActionAgentForceDown,
      ActionKillSessions]"

text \<open>
  The constants of the two families of check toggles, by what they do. The source declares
  an \<^verbatim>\<open>ActionHealth\<close> constant for each of the five toggles and an \<^verbatim>\<open>ActionAgent\<close>
  constant for four of them.
\<close>

datatype toggle = Disable | Enable | ForceUp | ForceNoLB | ForceDown

definition toggles :: "toggle list" where
  "toggles = [Disable, Enable, ForceUp, ForceNoLB, ForceDown]"

fun ActionHealth :: "toggle \<Rightarrow> Action option" where
  "ActionHealth Disable = Some ActionHealthDisableChecks"
| "ActionHealth Enable = Some ActionHealthEnableChecks"
| "ActionHealth ForceUp = Some ActionHealthForceUp"
| "ActionHealth ForceNoLB = Some ActionHealthForceNoLB"
| "ActionHealth ForceDown = Some ActionHealthForceDown"

fun ActionAgent :: "toggle \<Rightarrow> Action option" where
  "ActionAgent Disable = Some ActionAgentDisablechecks"
| "ActionAgent Enable = Some ActionAgentEnablechecks"
| "ActionAgent ForceUp = Some ActionAgentForceUp"
| "ActionAgent ForceNoLB = None"
| "ActionAgent ForceDown = Some ActionAgentForceDown"

subsection \<open>\<^verbatim>\<open>HAProxyConfig\<close> and its options\<close>

text \<open>
  \<^verbatim>\<open>http.Client\<close> is a struct of four fields. \<^verbatim>\<open>CheckRedirect\<close> is a function, \<^verbatim>\<open>nil\<close>
  for the default policy of following redirects; the transport, the cookie jar and the
  request are opaque.
\<close>

typedecl http_Request
typedecl http_RoundTripper
typedecl http_CookieJar

record http_Client =
  Transport :: "http_RoundTripper option"
  CheckRedirect :: "(http_Request \<Rightarrow> http_Request list \<Rightarrow> error option) option"
  Jar :: "http_CookieJar option"
  Timeout :: int

definition new_http_Client :: http_Client where
  \<comment> \<open>\<^verbatim>\<open>&http.Client{}\<close>\<close>
  "new_http_Client = \<lparr>Transport = None, CheckRedirect = None, Jar = None, Timeout = 0\<rparr>"

text \<open>
  The configuration. \<^verbatim>\<open>url.URL\<close> is what the URL parser returns, a type parameter; the
  \<^verbatim>\<open>client\<close> pointer is \<^term>\<open>None\<close> when \<^verbatim>\<open>nil\<close> and else holds the client it points
  to, the configuration being the one that writes through it here.
\<close>

record 'url HAProxyConfig =
  URL :: 'url
  StatsPath :: string
  Username :: string
  Password :: string
  client :: "http_Client option"
  setupdone :: bool

text \<open>
  \<^verbatim>\<open>type ConfigOption func(*HAProxyConfig) error\<close>: an option may write to the
  configuration and returns an error or \<^verbatim>\<open>nil\<close>.
\<close>

type_synonym 'url ConfigOption = "'url HAProxyConfig \<Rightarrow> 'url HAProxyConfig \<times> error option"

definition setupClient :: "'url HAProxyConfig \<Rightarrow> 'url HAProxyConfig" where
  "setupClient c =
     (if setupdone c then c
      else
        let cl = (case client c of None \<Rightarrow> new_http_Client | Some cl \<Rightarrow> cl)
        in c\<lparr>client := Some (cl\<lparr>CheckRedirect := Some (\<lambda>req via. Some ErrUseLastResponse)\<rparr>),
             setupdone := True\<rparr>)"

definition WithStatsPath :: "string \<Rightarrow> 'url ConfigOption" where
  "WithStatsPath path = (\<lambda>c. (c\<lparr>StatsPath := path\<rparr>, None))"

text \<open>
  \<^verbatim>\<open>WithAuthString\<close> calls the method \<^verbatim>\<open>SetCredentialsFromAuthString\<close>, which this file
  does not define: it is a parameter.
\<close>

definition WithAuthString ::
  "('url HAProxyConfig \<Rightarrow> string \<Rightarrow> 'url HAProxyConfig \<times> error option) \<Rightarrow> string \<Rightarrow> 'url ConfigOption" where
  "WithAuthString SetCredentialsFromAuthString auth = (\<lambda>c. SetCredentialsFromAuthString c auth)"

definition WithAuthInfo :: "string \<Rightarrow> string \<Rightarrow> 'url ConfigOption" where
  "WithAuthInfo user pass = (\<lambda>c. (c\<lparr>Username := user, Password := pass\<rparr>, None))"


definition TrimRight :: "string \<Rightarrow> string \<Rightarrow> string" where
  \<comment> \<open>\<^verbatim>\<open>strings.TrimRight\<close> for a cutset of ASCII characters: it drops bytes from the end\<close>
  "TrimRight s cutset = rev (dropWhile (\<lambda>c. c \<in> set cutset) (rev s))"

text \<open>The loop over the options: the first error ends the construction.\<close>

fun NewHAProxyConfig_opts :: "'url HAProxyConfig \<Rightarrow> 'url ConfigOption list \<Rightarrow> error + 'url HAProxyConfig" where
  "NewHAProxyConfig_opts c [] = Inr c"
| "NewHAProxyConfig_opts c (opt # opts) =
     (case opt c of
        (c', Some err) \<Rightarrow> Inl err
      | (c', None) \<Rightarrow> NewHAProxyConfig_opts c' opts)"

text \<open>
  \<^verbatim>\<open>NewHAProxyConfig\<close>, with \<^verbatim>\<open>url.Parse\<close> as a parameter. \<^verbatim>\<open>fmt.Sprintf("%s/", x)\<close> is
  \<open>x\<close> followed by a slash. The result is the pair \<^verbatim>\<open>(nil, err)\<close> or \<^verbatim>\<open>(c, nil)\<close>.
  What the construction does with the options and with the client is proved for every
  parser; where the stored URL matters, the parser is \<^verbatim>\<open>url.Parse\<close> as modelled below.
\<close>

definition NewHAProxyConfig ::
  "(string \<Rightarrow> error + 'url) \<Rightarrow> string \<Rightarrow> 'url ConfigOption list \<Rightarrow> error + 'url HAProxyConfig" where
  "NewHAProxyConfig url_Parse proxyUrl opts =
     (case url_Parse (TrimRight proxyUrl ''/'' @ ''/'') of
        Inl err \<Rightarrow> Inl err
      | Inr endpoint \<Rightarrow>
          (case NewHAProxyConfig_opts
                  \<lparr>URL = endpoint, StatsPath = [], Username = [], Password = [],
                   client = None, setupdone = False\<rparr> opts of
             Inl err \<Rightarrow> Inl err
           | Inr c \<Rightarrow> Inr (setupClient c)))"

text \<open>
  To state that options are applied in the order given: the configuration after all of
  \<open>opts\<close> have written to it in turn, and whether each of them, applied to what the
  earlier ones left, returned no error.
\<close>

definition applied :: "'url HAProxyConfig \<Rightarrow> 'url ConfigOption list \<Rightarrow> 'url HAProxyConfig" where
  "applied c opts = foldl (\<lambda>c opt. fst (opt c)) c opts"

fun all_succeed :: "'url HAProxyConfig \<Rightarrow> 'url ConfigOption list \<Rightarrow> bool" where
  "all_succeed c [] = True"
| "all_succeed c (opt # opts) = (snd (opt c) = None \<and> all_succeed (fst (opt c)) opts)"




subsection \<open>\<^verbatim>\<open>url.Parse\<close>\<close>







































section \<open>Properties of the duration codec\<close>

subsection \<open>Integers below \<open>2 ^ 53\<close> are \<^verbatim>\<open>float64\<close> values\<close>

lemma ilog2_int_le:
  assumes "0 < n" "n < 2 ^ 53"
  shows "ilog2 (of_int n) \<le> 52" "0 \<le> ilog2 (of_int n) + 1"
proof -
  have b: "bitlen n \<le> 53"
    using assms by (simp add: bitlen_le_iff_power)
  have b1: "bitlen (1::int) = 1"
    using bitlen_twopow_add_eq [of 0 0] by simp
  have b0: "1 \<le> bitlen n"
    using assms by (simp add: bitlen_ge_iff_power)
  show "ilog2 (of_int n) \<le> 52"
    using b by (simp add: ilog2_def b1 Let_def)
  show "0 \<le> ilog2 (of_int n) + 1"
    using b0 by (simp add: ilog2_def b1 Let_def)
qed

lemma round_half_even_int: "round_half_even (of_int k) = k"
  by (simp add: round_half_even_def)

lemma f64_round_int:
  assumes "0 < n" "n < 2 ^ 53"
  shows "f64_round (of_int n) = Float (of_int n)"
proof -
  define e where "e = max (ilog2 (of_int n) - 52) (- 1074)"
  have e: "e \<le> 0" "- 1074 \<le> e"
    using ilog2_int_le [OF assms] by (simp_all add: e_def)
  define m where "m = nat (- e)"
  have p: "pow2 e = 1 / 2 ^ m"
    using e by (auto simp: pow2_def m_def)
  have q: "of_int n / pow2 e = (of_int (n * 2 ^ m) :: rat)"
    by (simp add: p)
  have r: "of_int (round_half_even (of_int n / pow2 e)) * pow2 e = (of_int n :: rat)"
    unfolding q round_half_even_int by (simp add: p)
  have "(of_int n :: rat) < of_int (2 ^ 53)"
    using assms(2) by (simp only: of_int_less_iff)
  also have "\<dots> < 2 ^ 1024" by simp
  finally have big: "\<not> pow2 1024 \<le> (of_int n :: rat)"
    by (simp add: pow2_def)
  show ?thesis
    using assms(1) big by (simp add: f64_round_def e_def [symmetric] r Let_def)
qed

lemma f64_round_numeral:
  "numeral w < (2 ^ 53 :: int) \<Longrightarrow> f64_round (numeral w) = Float (numeral w)"
  using f64_round_int [of "numeral w"] by simp

subsection \<open>A cell of decimal digits\<close>

lemma foldl_digits_mono: "x \<le> foldl (\<lambda>a c. a * 10 + digitVal c) x ds"
proof (induction ds arbitrary: x)
  case Nil
  show ?case by simp
next
  case (Cons c ds)
  have "x \<le> x * 10 + digitVal c" by simp
  also have "\<dots> \<le> foldl (\<lambda>a c. a * 10 + digitVal c) (x * 10 + digitVal c) ds"
    by (rule Cons.IH)
  finally show ?case by simp
qed

lemma leadingInt_from_digits:
  assumes "list_all isDigit ds" and "\<And>c r. rest = c # r \<Longrightarrow> \<not> isDigit c" and "x \<le> 2 ^ 63"
  shows "leadingInt_from x (ds @ rest) =
     (let v = foldl (\<lambda>a c. a * 10 + digitVal c) x ds
      in if v \<le> 2 ^ 63 then (v, rest, None) else (0, [], Some ErrLeadingInt))"
  using assms
proof (induction ds arbitrary: x)
  case Nil
  then show ?case by (cases rest) simp_all
next
  case (Cons c ds)
  let ?f = "\<lambda>a c. a * 10 + digitVal c"
  have c: "isDigit c" and ds: "list_all isDigit ds"
    using Cons.prems(1) by simp_all
  have dv: "digitVal c \<le> 9"
    using c unfolding isDigit_def digitVal_def by linarith
  show ?case
  proof (cases "x > 2 ^ 63 div 10")
    case True
    then have "2 ^ 63 < x * 10 + digitVal c" by simp
    also have "\<dots> \<le> foldl ?f (x * 10 + digitVal c) ds"
      by (rule foldl_digits_mono)
    finally show ?thesis using True c by (simp add: Let_def)
  next
    case False
    then have small: "x * 10 + digitVal c < 2 ^ 64"
      using dv by simp
    then have u: "u64 (x * 10 + digitVal c) = x * 10 + digitVal c"
      by (simp add: u64_def)
    show ?thesis
    proof (cases "x * 10 + digitVal c > 2 ^ 63")
      case True
      then have "2 ^ 63 < foldl ?f (x * 10 + digitVal c) ds"
        using foldl_digits_mono [of "x * 10 + digitVal c" ds] by linarith
      then show ?thesis using True False c u by (simp add: Let_def)
    next
      case le: False
      then have "x * 10 + digitVal c \<le> 2 ^ 63" by simp
      from Cons.IH [OF ds Cons.prems(2) this]
      show ?thesis using le False c u by (simp add: Let_def)
    qed
  qed
qed


lemma isDigit_simps [simp]:
  "\<not> isDigit CHR ''s''" "\<not> isDigit CHR ''.''" "\<not> isDigit CHR ''-''" "\<not> isDigit CHR ''+''"
  by (simp_all add: isDigit_def)

lemma startsNumber_simps [simp]:
  "\<not> startsNumber CHR ''s''" "isDigit c \<Longrightarrow> startsNumber c"
  by (simp_all add: startsNumber_def)

lemma unitMap_s: "unitMap ''s'' = Some 1000000000"
  by (simp add: unitMap_def)

lemma leadingInt_digits_s:
  assumes "list_all isDigit ds"
  shows "leadingInt (ds @ ''s'') =
     (if decimalValue ds \<le> 2 ^ 63 then (decimalValue ds, ''s'', None)
      else (0, [], Some ErrLeadingInt))"
  unfolding leadingInt_def decimalValue_def
  using leadingInt_from_digits [OF assms, of "''s''" 0] by (simp add: Let_def)

lemma consumeUnit_s:
  "consumeUnit orig v 0 (Float 1) ''s'' =
     (if v > 9223372036 then Inl (ErrInvalidDuration orig) else Inr (u64 (v * 1000000000), []))"
  by (simp add: consumeUnit_def unitMap_s Let_def)

lemma ParseDuration_term_digits:
  assumes "ds \<noteq> []" and "list_all isDigit ds"
  shows "ParseDuration_term orig (ds @ ''s'') =
     (if decimalValue ds \<le> 9223372036 then Inr (decimalValue ds * 1000000000, [])
      else Inl (ErrInvalidDuration orig))"
proof -
  from assms obtain c ds' where ds: "ds = c # ds'" and c: "isDigit c"
    by (cases ds) auto
  have cf: "consumeFraction ''s'' = (0, Float 1, ''s'', False)"
    by (simp add: consumeFraction_def)
  show ?thesis
  proof (cases "decimalValue ds \<le> 2 ^ 63")
    case False
    then show ?thesis
      using c leadingInt_digits_s [OF assms(2)]
      by (simp add: ParseDuration_term_def ds)
  next
    case True
    have li: "leadingInt (c # ds' @ ''s'') = (decimalValue ds, ''s'', None)"
      using True leadingInt_digits_s [OF assms(2)] by (simp add: ds)
    have "ParseDuration_term orig (ds @ ''s'') = consumeUnit orig (decimalValue ds) 0 (Float 1) ''s''"
      using c by (simp add: ParseDuration_term_def ds li cf)
    also have "\<dots> = (if decimalValue ds \<le> 9223372036 then Inr (decimalValue ds * 1000000000, [])
        else Inl (ErrInvalidDuration orig))"
      by (simp add: consumeUnit_s u64_def)
    finally show ?thesis .
  qed
qed

lemma ParseDuration_digits:
  assumes "ds \<noteq> []" and "list_all isDigit ds"
  shows "ParseDuration (ds @ ''s'') =
     (if decimalValue ds \<le> 9223372036 then (int (decimalValue ds) * 1000000000, None)
      else (0, Some (ErrInvalidDuration (ds @ ''s''))))"
proof -
  from assms obtain c ds' where ds: "ds = c # ds'" and c: "isDigit c"
    by (cases ds) auto
  have nosign: "c \<noteq> CHR ''-''" "c \<noteq> CHR ''+''"
    using c by auto
  have loop: "ParseDuration_loop (ds @ ''s'') 0 (ds @ ''s'') =
      (if decimalValue ds \<le> 9223372036 then Inr (decimalValue ds * 1000000000)
       else Inl (ErrInvalidDuration (ds @ ''s'')))"
    by (subst ParseDuration_loop.simps)
      (simp add: ParseDuration_term_digits [OF assms] u64_def ParseDuration_loop.simps [of _ _ "[]"])
  show ?thesis
    using nosign loop unfolding ParseDuration_def
    by (simp add: ds int64_def)
qed

lemma UnmarshalCSV_digits:
  assumes "csv \<noteq> []" and "list_all isDigit csv"
  shows "UnmarshalCSV date csv =
     (if decimalValue csv \<le> 9223372036
      then (Duration (int (decimalValue csv) * 1000000000), None)
      else (Duration 0, Some (ErrInvalidDuration (csv @ ''s''))))"
  using assms by (simp add: UnmarshalCSV_def ParseDuration_digits)


subsection \<open>A cell without a decimal digit\<close>




subsection \<open>\<^verbatim>\<open>fmtInt\<close> writes the decimal string\<close>

lemma decimalValue_snoc: "decimalValue (ds @ [c]) = decimalValue ds * 10 + digitVal c"
  by (simp add: decimalValue_def)

lemma digit_char:
  assumes "d < 10"
  shows "isDigit (char_of (d + 48))" "digitVal (char_of (d + 48)) = d"
    "0 < d \<Longrightarrow> char_of (d + 48) \<noteq> CHR ''0''"
proof -
  have oc: "(of_char (char_of (d + 48)) :: nat) = d + 48"
    using assms by simp
  show "isDigit (char_of (d + 48))"
    using assms by (simp add: isDigit_def oc)
  show "digitVal (char_of (d + 48)) = d"
    unfolding digitVal_def oc by simp
  show "char_of (d + 48) \<noteq> CHR ''0''" if "0 < d"
  proof
    assume "char_of (d + 48) = CHR ''0''"
    then have "(of_char (char_of (d + 48)) :: nat) = of_char CHR ''0''"
      by (rule arg_cong)
    then have "d + 48 = 48" unfolding oc by simp
    with that show False by simp
  qed
qed

lemma fmtInt_loop_digits:
  "\<exists>ds. fmtInt_loop buf v = ds @ buf \<and> list_all isDigit ds \<and> decimalValue ds = v \<and>
        (if v = 0 then ds = [] else hd ds \<noteq> CHR ''0'' \<and> ds \<noteq> [])"
proof (induction buf v rule: fmtInt_loop.induct)
  case (1 buf v)
  show ?case
  proof (cases "v > 0")
    case False
    then show ?thesis
      by (subst fmtInt_loop.simps) (simp add: decimalValue_def)
  next
    case True
    let ?c = "char_of (v mod 10 + 48)"
    from 1 [OF True] obtain ds where
      ds: "fmtInt_loop (?c # buf) (v div 10) = ds @ ?c # buf" "list_all isDigit ds"
        "decimalValue ds = v div 10"
        "if v div 10 = 0 then ds = [] else hd ds \<noteq> CHR ''0'' \<and> ds \<noteq> []"
      by blast
    have m: "v mod 10 < 10" by simp
    have eq: "fmtInt_loop buf v = (ds @ [?c]) @ buf"
      using True ds(1) by (subst fmtInt_loop.simps) simp
    have dig: "list_all isDigit (ds @ [?c])"
      using ds(2) digit_char(1) [OF m] by simp
    have val: "decimalValue (ds @ [?c]) = v"
      by (simp add: decimalValue_snoc ds(3) digit_char(2) [OF m])
    have hd: "hd (ds @ [?c]) \<noteq> CHR ''0''"
    proof (cases "v div 10 = 0")
      case True
      with \<open>v > 0\<close> have "0 < v mod 10" by (simp add: div_eq_0_iff)
      with True ds(4) digit_char(3) [OF m] show ?thesis by simp
    next
      case False
      with ds(4) show ?thesis by simp
    qed
    from eq dig val hd True show ?thesis
      by (intro exI [of _ "ds @ [?c]"]) simp
  qed
qed

lemma fmtInt_isDecimalOf: "isDecimalOf (fmtInt [] n) n"
proof (cases "n = 0")
  case True
  then show ?thesis
    by (simp add: fmtInt_def isDecimalOf_def decimalValue_def isDigit_def digitVal_def)
next
  case False
  with fmtInt_loop_digits [of "[]" n] show ?thesis
    by (auto simp: fmtInt_def isDecimalOf_def)
qed

subsection \<open>Running the codec on a given cell\<close>

text \<open>
  The equations that unfold a decode of a concrete cell, the characters of the ten digits,
  and the equations that unfold the writing of a concrete number.
\<close>

lemmas digit_eval = isDigit_def digitVal_def decimalValue_def

lemma ParseDuration_loop_Nil: "ParseDuration_loop orig d [] = Inr d"
  by (subst ParseDuration_loop.simps) simp

lemma ParseDuration_loop_Cons:
  "ParseDuration_loop orig d (c # s) =
     (case ParseDuration_term orig (c # s) of
        Inl e \<Rightarrow> Inl e
      | Inr (v, rest) \<Rightarrow>
          if u64 (d + v) > 2 ^ 63 then Inl (ErrInvalidDuration orig)
          else ParseDuration_loop orig (u64 (d + v)) rest)"
  by (subst ParseDuration_loop.simps) (simp add: Let_def split: sum.splits)

lemmas ParseDuration_eval =
  UnmarshalCSV_def ParseDuration_def int64_def ParseDuration_loop_Nil ParseDuration_loop_Cons
  ParseDuration_term_def consumeFraction_def consumeUnit_def startsNumber_def isDigit_def
  digitVal_def unitMap_def u64_def leadingInt_def leadingFraction_def float64_of_uint64_def
  f64_round_numeral

lemma digit_chars:
  "char_of (48::nat) = CHR ''0''" "char_of (49::nat) = CHR ''1''" "char_of (50::nat) = CHR ''2''"
  "char_of (51::nat) = CHR ''3''" "char_of (52::nat) = CHR ''4''" "char_of (53::nat) = CHR ''5''"
  "char_of (54::nat) = CHR ''6''" "char_of (55::nat) = CHR ''7''" "char_of (56::nat) = CHR ''8''"
  "char_of (57::nat) = CHR ''9''"
  by code_simp+

lemma fmtInt_loop_0: "fmtInt_loop buf 0 = buf"
  by (subst fmtInt_loop.simps) simp

lemma fmtInt_loop_1: "fmtInt_loop buf (Suc 0) = CHR ''1'' # buf"
  by (subst fmtInt_loop.simps) (simp add: digit_chars fmtInt_loop_0)

lemma fmtInt_loop_numeral:
  "fmtInt_loop buf (numeral k) =
     fmtInt_loop (char_of ((numeral k :: nat) mod 10 + 48) # buf) (numeral k div 10)"
  by (subst fmtInt_loop.simps) simp

lemma fmtFrac_loop_numeral:
  "fmtFrac_loop buf v print (numeral k) =
     (let digit = v mod 10;
          print' = (print \<or> digit \<noteq> 0);
          buf' = (if print' then char_of (digit + 48) # buf else buf)
      in fmtFrac_loop buf' (v div 10) print' (pred_numeral k))"
  unfolding numeral_eq_Suc fmtFrac_loop.simps ..

lemmas fmtInt_eval =
  MarshalCSV_def Sprintf_d_def fmtInt_def fmtInt_loop_0 fmtInt_loop_1 fmtInt_loop_numeral
  digit_chars

lemmas String_eval =
  String_def Duration_String_def fmtFrac_def fmtFrac_loop_numeral fmtInt_def
  fmtInt_loop_0 fmtInt_loop_1 fmtInt_loop_numeral digit_chars u64_def

text \<open>
  The renderings of one hour, two minutes and three seconds, of a second and a half, of
  minus five seconds and of five milliseconds.
\<close>

lemma String_examples:
  "String (Duration 3723000000000) = ''1h2m3s''"
  "String (Duration 1500000000) = ''1.5s''"
  "String (Duration (- 5000000000)) = ''-5s''"
  "String (Duration 5000000) = ''5ms''"
  by (simp_all add: String_eval)

subsection \<open>A number has one decimal string\<close>

text \<open>
  The strings that \<^const>\<open>isDecimalOf\<close> relates to a number are one string, the one that
  \<^verbatim>\<open>fmtInt\<close> writes.
\<close>

lemma char_of_digitVal:
  assumes "isDigit c"
  shows "char_of (digitVal c + 48) = c" "digitVal c < 10"
proof -
  have "digitVal c + 48 = (of_char c :: nat)"
    using assms unfolding isDigit_def digitVal_def by linarith
  then show "char_of (digitVal c + 48) = c" by simp
  show "digitVal c < 10"
    using assms unfolding isDigit_def digitVal_def by linarith
qed

lemma digitVal_pos:
  assumes "isDigit c" and "c \<noteq> CHR ''0''"
  shows "0 < digitVal c"
proof (rule ccontr)
  assume "\<not> 0 < digitVal c"
  then have "digitVal c + 48 = 48" by simp
  then have "char_of (digitVal c + 48) = char_of (48 :: nat)" by simp
  with char_of_digitVal(1) [OF assms(1)] assms(2) show False
    by (simp add: digit_chars)
qed

lemma fmtInt_loop_decimal:
  assumes "ds \<noteq> []" and "list_all isDigit ds" and "hd ds \<noteq> CHR ''0''"
  shows "fmtInt_loop buf (decimalValue ds) = ds @ buf \<and> 0 < decimalValue ds"
  using assms
proof (induction ds arbitrary: buf rule: rev_induct)
  case Nil
  then show ?case by simp
next
  case (snoc c ds)
  have c: "isDigit c" using snoc.prems(2) by simp
  note dv = char_of_digitVal [OF c]
  let ?v = "decimalValue (ds @ [c])"
  have v: "?v = decimalValue ds * 10 + digitVal c"
    by (rule decimalValue_snoc)
  have dm: "?v div 10 = decimalValue ds" "?v mod 10 = digitVal c"
    using dv(2) by (simp_all add: v)
  show ?case
  proof (cases "ds = []")
    case True
    with snoc.prems(3) have "c \<noteq> CHR ''0''" by simp
    then have pos: "0 < digitVal c" using c by (rule digitVal_pos [rotated])
    have "decimalValue [c] = digitVal c" by (simp add: decimalValue_def)
    moreover have "fmtInt_loop buf (digitVal c) = c # buf"
      using pos dv by (subst fmtInt_loop.simps) (simp add: fmtInt_loop_0)
    ultimately show ?thesis using True pos by simp
  next
    case False
    with snoc.prems have "list_all isDigit ds" "hd ds \<noteq> CHR ''0''" by simp_all
    from snoc.IH [OF False this] have
      ih: "fmtInt_loop (c # buf) (decimalValue ds) = ds @ c # buf" and p: "0 < decimalValue ds"
      by simp_all
    have pos: "0 < ?v" using p by (simp add: v)
    have "fmtInt_loop buf ?v = fmtInt_loop (char_of (?v mod 10 + 48) # buf) (?v div 10)"
      using pos by (subst fmtInt_loop.simps) simp
    also have "\<dots> = ds @ c # buf"
      by (simp add: dm dv(1) ih)
    finally show ?thesis using pos by simp
  qed
qed

lemma isDecimalOf_iff: "isDecimalOf out n \<longleftrightarrow> out = fmtInt [] n"
proof
  assume "out = fmtInt [] n"
  then show "isDecimalOf out n" by (simp add: fmtInt_isDecimalOf)
next
  assume a: "isDecimalOf out n"
  show "out = fmtInt [] n"
  proof (cases "out = ''0''")
    case True
    with a have "n = 0" by (simp add: isDecimalOf_def digit_eval)
    with True show ?thesis by (simp add: fmtInt_def)
  next
    case False
    with a have "out \<noteq> []" "list_all isDigit out" "hd out \<noteq> CHR ''0''" "decimalValue out = n"
      by (simp_all add: isDecimalOf_def)
    from fmtInt_loop_decimal [OF this(1-3), of "[]"] this(4)
    show ?thesis by (simp add: fmtInt_def)
  qed
qed

subsection \<open>A cell that does not begin like a number\<close>



subsection \<open>What decodes is a duration string\<close>






lemma isDigit_startsNumber: "isDigit c \<Longrightarrow> startsNumber c"
  by (simp add: startsNumber_def)









section \<open>The duration codec: seconds in, nanoseconds out\<close>

text \<open>
  Claim C1, as amended. For every non-empty string \<open>s\<close> of decimal digits whose value is at
  most 9223372036 (the largest count of seconds whose nanoseconds fit an \<^verbatim>\<open>int64\<close>),
  \<^verbatim>\<open>UnmarshalCSV\<close> succeeds and stores the value times \<open>10\<^sup>9\<close>, and \<^verbatim>\<open>MarshalCSV\<close> of the
  decoded duration returns, without error, the decimal string of the value of \<open>s\<close> times
  \<open>10\<^sup>9\<close>.
\<close>

theorem Duration_decode_encode_scaled:
  assumes "s \<noteq> []" and "list_all isDigit s" and "decimalValue s \<le> 9223372036"
  shows "snd (UnmarshalCSV date s) = None \<and>
         Nanoseconds (fst (UnmarshalCSV date s)) = int (decimalValue s) * 1000000000 \<and>
         snd (MarshalCSV (fst (UnmarshalCSV date s))) = None \<and>
         isDecimalOf (fst (MarshalCSV (fst (UnmarshalCSV date s)))) (decimalValue s * 1000000000)"
proof -
  have u: "UnmarshalCSV date s = (Duration (int (decimalValue s) * 1000000000), None)"
    using assms by (simp add: UnmarshalCSV_digits)
  have "Sprintf_d (int (decimalValue s) * 1000000000) = fmtInt [] (decimalValue s * 1000000000)"
    by (simp add: Sprintf_d_def nat_mult_distrib)
  then have "isDecimalOf (Sprintf_d (int (decimalValue s) * 1000000000)) (decimalValue s * 1000000000)"
    by (simp add: fmtInt_isDecimalOf)
  then show ?thesis
    by (simp add: u MarshalCSV_def)
qed

text \<open>The cell \<^verbatim>\<open>42\<close>: forty-two seconds in, \<^verbatim>\<open>42000000000\<close> out.\<close>

theorem Duration_decode_encode_scaled_witness:
  "''42'' \<noteq> [] \<and> list_all isDigit ''42'' \<and> decimalValue ''42'' \<le> 9223372036 \<and>
   snd (UnmarshalCSV (Duration 0) ''42'') = None \<and>
   isDecimalOf (fst (MarshalCSV (fst (UnmarshalCSV (Duration 0) ''42''))))
     (decimalValue ''42'' * 1000000000) \<and>
   fst (MarshalCSV (fst (UnmarshalCSV (Duration 0) ''42''))) = ''42000000000''"
proof -
  have h1: "''42'' \<noteq> []" by simp
  have h2: "list_all isDigit ''42''" by (simp add: digit_eval)
  have h3: "decimalValue ''42'' \<le> 9223372036" by (simp add: digit_eval)
  have v: "fst (MarshalCSV (fst (UnmarshalCSV (Duration 0) ''42''))) = ''42000000000''"
    by (simp add: UnmarshalCSV_digits h2 digit_eval fmtInt_eval)
  from Duration_decode_encode_scaled [OF h1 h2 h3, of "Duration 0"] h1 h2 h3 v
  show ?thesis by blast
qed

text \<open>
  Claim C1 as the specification states it, for every string of digits, fails at the cell
  \<^verbatim>\<open>9223372037\<close>: \<^verbatim>\<open>ParseDuration\<close> rejects it as an overflow, \<^verbatim>\<open>UnmarshalCSV\<close> returns
  the error with the receiver set to zero, and the re-encoding is \<^verbatim>\<open>0\<close>, not
  \<^verbatim>\<open>9223372037000000000\<close>.
\<close>

theorem Duration_decode_encode_counterexample:
  "list_all isDigit ''9223372037'' \<and>
   UnmarshalCSV (Duration 0) ''9223372037'' =
     (Duration 0, Some (ErrInvalidDuration ''9223372037s'')) \<and>
   fst (MarshalCSV (fst (UnmarshalCSV (Duration 0) ''9223372037''))) = ''0'' \<and>
   \<not> isDecimalOf ''0'' (decimalValue ''9223372037'' * 1000000000)"
proof -
  have h2: "list_all isDigit ''9223372037''" by (simp add: digit_eval)
  have u: "UnmarshalCSV (Duration 0) ''9223372037'' =
     (Duration 0, Some (ErrInvalidDuration ''9223372037s''))"
    by (simp add: UnmarshalCSV_digits h2 digit_eval)
  have m: "fst (MarshalCSV (Duration 0)) = ''0''"
    by (simp add: fmtInt_eval)
  have n: "\<not> isDecimalOf ''0'' (decimalValue ''9223372037'' * 1000000000)"
    by (simp add: isDecimalOf_def digit_eval)
  from h2 u m n show ?thesis by simp
qed




text \<open>
  Claim C9. Decoding an empty cell returns no error and leaves the receiver as it is, so a
  freshly initialised \<^verbatim>\<open>Duration\<close> stays the zero duration, and \<^verbatim>\<open>String\<close> renders it
  as \<^verbatim>\<open>0s\<close>.
\<close>

theorem Duration_empty_cell_zero:
  "UnmarshalCSV date [] = (date, None) \<and>
   UnmarshalCSV (Duration 0) [] = (Duration 0, None) \<and>
   String (fst (UnmarshalCSV (Duration 0) [])) = ''0s''"
  by (simp add: UnmarshalCSV_def String_def Duration_String_def)

text \<open>
  Claim C10. \<^verbatim>\<open>UnmarshalCSV\<close> accepts more than non-negative whole seconds: the cell
  \<^verbatim>\<open>-5\<close> decodes to minus five seconds and the cell \<^verbatim>\<open>1.5\<close> to one and a half
  seconds, both without error.
\<close>

theorem UnmarshalCSV_negative_and_fraction:
  "UnmarshalCSV date ''-5'' = (Duration (- 5000000000), None) \<and>
   UnmarshalCSV date ''1.5'' = (Duration 1500000000, None)"
  by (simp add: ParseDuration_eval)

section \<open>The vocabularies\<close>

text \<open>The ordinals of the four constants, as \<^verbatim>\<open>iota\<close> numbers them; they differ.\<close>

lemma EntryType_ordinals:
  "ordinal Frontend = 0" "ordinal Backend = 1" "ordinal Server = 2" "ordinal Socket = 3"
  "distinct [Frontend, Backend, Server, Socket]"
  by (simp_all add: Frontend_def Backend_def Server_def Socket_def)

lemmas Action_consts =
  ActionSetStateToReady_def ActionSetStateToDrain_def ActionSetStateToMaint_def
  ActionHealthDisableChecks_def ActionHealthEnableChecks_def ActionHealthForceUp_def
  ActionHealthForceNoLB_def ActionHealthForceDown_def
  ActionAgentDisablechecks_def ActionAgentEnablechecks_def ActionAgentForceUp_def
  ActionAgentForceDown_def ActionKillSessions_def

text \<open>
  Claim C4, as amended. Each \<^verbatim>\<open>Action\<close> constant is a fixed string token, and the thirteen
  tokens differ from each other. The health-check toggles are five: disable, enable,
  force-up, force-no-lb, force-down. The agent-check toggles are four of these: disable,
  enable, force-up, force-down; the source declares no agent force-no-lb.
\<close>

theorem Action_check_toggles:
  "map ActionHealth toggles =
     [Some (Action ''dhlth''), Some (Action ''ehlth''), Some (Action ''hrunn''),
      Some (Action ''hnolb''), Some (Action ''hdown'')] \<and>
   map ActionAgent toggles =
     [Some (Action ''dagent''), Some (Action ''eagent''), Some (Action ''arunn''),
      None, Some (Action ''adown'')] \<and>
   map token Actions =
     [''ready'', ''drain'', ''maint'',
      ''dhlth'', ''ehlth'', ''hrunn'', ''hnolb'', ''hdown'',
      ''dagent'', ''eagent'', ''arunn'', ''adown'',
      ''shutdown''] \<and>
   distinct Actions"
  by (simp add: toggles_def Actions_def Action_consts)

text \<open>
  Claim C4 as the specification states it, the same five variants for the agent checks,
  fails at force-no-lb: \<^verbatim>\<open>ActionHealthForceNoLB\<close> has no agent counterpart among the
  thirteen constants.
\<close>

theorem Action_agent_toggles_counterexample:
  "ActionHealth ForceNoLB = Some (Action ''hnolb'') \<and>
   ActionAgent ForceNoLB = None \<and>
   length (filter (\<lambda>t. ActionHealth t \<noteq> None) toggles) = 5 \<and>
   length (filter (\<lambda>t. ActionAgent t \<noteq> None) toggles) = 4 \<and>
   length Actions = 13"
  by (simp add: toggles_def Actions_def Action_consts)

section \<open>The construction of the configuration\<close>

subsection \<open>The loop over the options\<close>

lemma NewHAProxyConfig_opts_all_succeed:
  "all_succeed c opts \<Longrightarrow> NewHAProxyConfig_opts c opts = Inr (applied c opts)"
proof (induction opts arbitrary: c)
  case Nil
  show ?case by (simp add: applied_def)
next
  case (Cons opt opts)
  obtain c' e where oc: "opt c = (c', e)" by (cases "opt c") auto
  with Cons.prems have "e = None" and "all_succeed c' opts" by simp_all
  with Cons.IH [of c'] oc show ?case by (simp add: applied_def)
qed

lemma NewHAProxyConfig_opts_success:
  "NewHAProxyConfig_opts c opts = Inr c' \<Longrightarrow> all_succeed c opts \<and> c' = applied c opts"
proof (induction opts arbitrary: c)
  case Nil
  then show ?case by (simp add: applied_def)
next
  case (Cons opt opts)
  obtain c1 e where oc: "opt c = (c1, e)" by (cases "opt c") auto
  with Cons.prems have e: "e = None" and r: "NewHAProxyConfig_opts c1 opts = Inr c'"
    by (simp_all split: option.splits)
  from Cons.IH [OF r] oc e show ?case by (simp add: applied_def)
qed

lemma NewHAProxyConfig_opts_first_failure:
  assumes "all_succeed c pre" and "snd (bad (applied c pre)) = Some err"
  shows "NewHAProxyConfig_opts c (pre @ bad # post) = Inl err"
  using assms
proof (induction pre arbitrary: c)
  case Nil
  then show ?case by (cases "bad c") (simp add: applied_def)
next
  case (Cons opt pre)
  obtain c' e where oc: "opt c = (c', e)" by (cases "opt c") auto
  with Cons.prems have "e = None" "all_succeed c' pre" "snd (bad (applied c' pre)) = Some err"
    by (simp_all add: applied_def)
  with Cons.IH [of c'] oc show ?case by simp
qed


text \<open>
  Claim C5. Once the base URL has parsed, \<^verbatim>\<open>NewHAProxyConfig\<close> applies the options in
  the order given, each to the configuration the earlier ones left. If all of them
  succeed, the result is that configuration, set up. If one of them returns an error
  after the ones before it succeeded, the result is that error and no configuration,
  whatever options follow it. It returns a configuration in no other case.
\<close>

theorem NewHAProxyConfig_options_in_order:
  assumes "url_Parse (TrimRight proxyUrl ''/'' @ ''/'') = Inr endpoint"
    and "c0 = \<lparr>URL = endpoint, StatsPath = [], Username = [], Password = [],
               client = None, setupdone = False\<rparr>"
  shows "(all_succeed c0 opts \<longrightarrow>
            NewHAProxyConfig url_Parse proxyUrl opts = Inr (setupClient (applied c0 opts))) \<and>
         (\<forall>pre bad post err.
            opts = pre @ bad # post \<and> all_succeed c0 pre \<and> snd (bad (applied c0 pre)) = Some err \<longrightarrow>
            NewHAProxyConfig url_Parse proxyUrl opts = Inl err) \<and>
         (\<forall>c. NewHAProxyConfig url_Parse proxyUrl opts = Inr c \<longrightarrow>
            all_succeed c0 opts \<and> c = setupClient (applied c0 opts))"
proof (intro conjI allI impI)
  assume "all_succeed c0 opts"
  then show "NewHAProxyConfig url_Parse proxyUrl opts = Inr (setupClient (applied c0 opts))"
    using assms by (simp add: NewHAProxyConfig_def NewHAProxyConfig_opts_all_succeed)
next
  fix pre bad post err
  assume "opts = pre @ bad # post \<and> all_succeed c0 pre \<and> snd (bad (applied c0 pre)) = Some err"
  then show "NewHAProxyConfig url_Parse proxyUrl opts = Inl err"
    using assms by (simp add: NewHAProxyConfig_def NewHAProxyConfig_opts_first_failure)
next
  fix c
  assume "NewHAProxyConfig url_Parse proxyUrl opts = Inr c"
  then obtain c' where c': "NewHAProxyConfig_opts c0 opts = Inr c'" "c = setupClient c'"
    using assms by (auto simp: NewHAProxyConfig_def split: sum.splits)
  from NewHAProxyConfig_opts_success [OF c'(1)] c'(2)
  show "all_succeed c0 opts" and "c = setupClient (applied c0 opts)" by simp_all
qed

text \<open>
  Two options that succeed, and the same two around an option that fails: an auth string
  handed to a \<^verbatim>\<open>SetCredentialsFromAuthString\<close> that rejects it.
\<close>

theorem NewHAProxyConfig_options_in_order_witness:
  "NewHAProxyConfig Inr ''http://host:8080/stats'' [WithStatsPath ''csv'', WithAuthInfo ''u'' ''p''] =
     Inr \<lparr>URL = ''http://host:8080/stats/'', StatsPath = ''csv'', Username = ''u'', Password = ''p'',
          client = Some (new_http_Client\<lparr>CheckRedirect := Some (\<lambda>req via. Some ErrUseLastResponse)\<rparr>),
          setupdone = True\<rparr> \<and>
   NewHAProxyConfig Inr ''http://host:8080/stats''
     [WithStatsPath ''csv'', WithAuthString (\<lambda>c auth. (c, Some (ErrOther auth))) ''userpass'',
      WithAuthInfo ''u'' ''p''] =
     Inl (ErrOther ''userpass'')"
proof -
  let ?c0 = "\<lparr>URL = ''http://host:8080/stats/'', StatsPath = [], Username = [], Password = [],
               client = None, setupdone = False\<rparr>"
  let ?bad = "WithAuthString (\<lambda>c auth. (c, Some (ErrOther auth))) ''userpass'' :: string ConfigOption"
  have p: "(Inr :: string \<Rightarrow> error + string) (TrimRight ''http://host:8080/stats'' ''/'' @ ''/'') =
      Inr ''http://host:8080/stats/''"
    by (simp add: TrimRight_def)
  note t = NewHAProxyConfig_options_in_order
    [of Inr "''http://host:8080/stats''" "''http://host:8080/stats/''" ?c0, OF p refl]
  have ok: "all_succeed ?c0 [WithStatsPath ''csv'', WithAuthInfo ''u'' ''p'']"
    by (simp add: WithStatsPath_def WithAuthInfo_def)
  have 1: "NewHAProxyConfig Inr ''http://host:8080/stats'' [WithStatsPath ''csv'', WithAuthInfo ''u'' ''p''] =
      Inr (setupClient (applied ?c0 [WithStatsPath ''csv'', WithAuthInfo ''u'' ''p'']))"
    using t [of "[WithStatsPath ''csv'', WithAuthInfo ''u'' ''p'']"] ok by blast
  have pre: "all_succeed ?c0 [WithStatsPath ''csv'']"
    by (simp add: WithStatsPath_def)
  have bad: "snd (?bad (applied ?c0 [WithStatsPath ''csv''])) = Some (ErrOther ''userpass'')"
    by (simp add: WithAuthString_def)
  have 2: "NewHAProxyConfig Inr ''http://host:8080/stats''
      ([WithStatsPath ''csv''] @ ?bad # [WithAuthInfo ''u'' ''p'']) = Inl (ErrOther ''userpass'')"
    using t [of "[WithStatsPath ''csv''] @ ?bad # [WithAuthInfo ''u'' ''p'']"] pre bad by blast
  from 1 2 show ?thesis
    by (simp add: applied_def WithStatsPath_def WithAuthInfo_def setupClient_def new_http_Client_def)
qed

subsection \<open>The transport\<close>










text \<open>
  Claim C7. \<^verbatim>\<open>setupClient\<close> is idempotent: a configuration that has been set up is marked
  so, and a second call returns it as it is, with the same client, the same redirect check
  and the same other settings of the client.
\<close>

theorem setupClient_idempotent:
  "setupClient (setupClient c) = setupClient c \<and> setupdone (setupClient c) \<and>
   (setupdone c \<longrightarrow> setupClient c = c)"
  by (simp add: setupClient_def Let_def)

text \<open>
  An injected client with a timeout of thirty seconds: two calls leave what one call
  leaves, the client with its timeout and the redirect check.
\<close>

theorem setupClient_idempotent_witness:
  "setupClient (setupClient
     \<lparr>URL = ''http://host:8080/stats/'', StatsPath = ''csv'', Username = [], Password = [],
      client = Some \<lparr>Transport = None, CheckRedirect = None, Jar = None, Timeout = 30000000000\<rparr>,
      setupdone = False\<rparr>) =
   \<lparr>URL = ''http://host:8080/stats/'', StatsPath = ''csv'', Username = [], Password = [],
    client = Some \<lparr>Transport = None, CheckRedirect = Some (\<lambda>req via. Some ErrUseLastResponse),
                    Jar = None, Timeout = 30000000000\<rparr>,
    setupdone = True\<rparr>"
proof -
  let ?c = "\<lparr>URL = ''http://host:8080/stats/'', StatsPath = ''csv'', Username = [], Password = [],
      client = Some \<lparr>Transport = None, CheckRedirect = None, Jar = None, Timeout = 30000000000\<rparr>,
      setupdone = False\<rparr>"
  from setupClient_idempotent [of ?c]
  have "setupClient (setupClient ?c) = setupClient ?c" by blast
  then show ?thesis by (simp add: setupClient_def)
qed

subsection \<open>The base URL\<close>




subsection \<open>Where the slash of the base URL goes\<close>





































end
